theory Spec2Isabelle
  imports Complex_Main "HOL-Library.Log_Nat" "HOL-Library.Word"
begin

unbundle bit_operations_syntax

section \<open>Python values and exceptions\<close>

text \<open>
  The exceptions that the modelled code can raise. \<open>FileNotFoundError\<close> carries the path of
  the message \<^verbatim>\<open>f"Image not found: {path}"\<close>, \<open>KeyError\<close> the missing key.
  \<open>Cv2Error\<close> is an exception raised inside an OpenCV call (\<^verbatim>\<open>cv2.error\<close>, with its
  message). \<open>CollaboratorError\<close> stands for whatever another third-party call (the
  language model server, the Notion client) raises.
\<close>

datatype error =
    FileNotFoundError string
  | KeyError string
  | TypeError
  | ZeroDivisionError
  | OverflowError
  | Cv2Error string
  | JSONDecodeError
  | CollaboratorError string

text \<open>
  The values \<^verbatim>\<open>json.loads\<close> returns, which are also the values the Notion payload is
  built from: \<^verbatim>\<open>None\<close>, \<^verbatim>\<open>bool\<close>, \<^verbatim>\<open>int\<close>, \<^verbatim>\<open>float\<close> (a finite float by its exact
  value), \<^verbatim>\<open>str\<close>, \<^verbatim>\<open>list\<close> and \<^verbatim>\<open>dict\<close> (an association list in insertion order, the
  first binding of a key being the one that counts).
\<close>

datatype json =
    JNull
  | JBool bool
  | JInt int
  | JFloat rat
  | JStr string
  | JArr "json list"
  | JObj "(string \<times> json) list"

text \<open>Truth value testing, as in \<^verbatim>\<open>x if cond else y\<close>.\<close>

fun truthy :: "json \<Rightarrow> bool" where
  "truthy JNull = False"
| "truthy (JBool b) = b"
| "truthy (JInt i) = (i \<noteq> 0)"
| "truthy (JFloat r) = (r \<noteq> 0)"
| "truthy (JStr s) = (s \<noteq> [])"
| "truthy (JArr xs) = (xs \<noteq> [])"
| "truthy (JObj kvs) = (kvs \<noteq> [])"

text \<open>\<^verbatim>\<open>obj[key]\<close> with a string key: only a dict can be subscripted that way.\<close>

fun subscript :: "json \<Rightarrow> string \<Rightarrow> error + json" where
  "subscript (JObj kvs) k = (case map_of kvs k of None \<Rightarrow> Inl (KeyError k) | Some v \<Rightarrow> Inr v)"
| "subscript _ k = Inl TypeError"

text \<open>
  The sequence a \<^verbatim>\<open>for\<close> loop runs over: the elements of a list, the keys of a dict, the
  characters of a string; anything else is not iterable.
\<close>

fun iterate :: "json \<Rightarrow> error + json list" where
  "iterate (JArr xs) = Inr xs"
| "iterate (JObj kvs) = Inr (map JStr (remdups (map fst kvs)))"
| "iterate (JStr s) = Inr (map (\<lambda>c. JStr [c]) s)"
| "iterate _ = Inl TypeError"

section \<open>Strings\<close>

text \<open>
  Characters are code points below 256. \<open>isspace\<close> is \<^verbatim>\<open>str.isspace\<close> on them: tab, line
  feed, vertical tab, form feed, carriage return, the four separators 28 to 31, space,
  next line (133) and no-break space (160).
\<close>

definition isspace :: "char \<Rightarrow> bool" where
  "isspace c = ((of_char c :: nat) \<in> set [9, 10, 11, 12, 13, 28, 29, 30, 31, 32, 133, 160])"

text \<open>\<^verbatim>\<open>s.strip()\<close>: leading and trailing whitespace removed.\<close>

definition strip :: "string \<Rightarrow> string" where
  "strip s = rev (dropWhile isspace (rev (dropWhile isspace s)))"

text \<open>\<^verbatim>\<open>sep.join(xs)\<close>.\<close>

fun join :: "string \<Rightarrow> string list \<Rightarrow> string" where
  "join sep [] = []"
| "join sep [x] = x"
| "join sep (x # y # ys) = x @ sep @ join sep (y # ys)"

definition newline :: string where
  "newline = [CHR 0x0A]"

section \<open>Binary64 arithmetic\<close>

text \<open>
  Python's \<^verbatim>\<open>float\<close> and NumPy's \<^verbatim>\<open>float64\<close> are IEEE 754 binary64: every operation returns
  the exact result rounded to 53 significant bits, ties to even. \<open>float64 x\<close> is that
  rounding of the exact value \<open>x\<close> with an unbounded exponent. A result of magnitude
  \<open>2 ^ 1024\<close> or more is beyond the largest float (\<open>beyond_float\<close>): a true division of
  integers raises \<^verbatim>\<open>OverflowError\<close> there, a product is infinite. No subnormal result
  occurs for the values computed here (quotients of a positive integer by a smaller
  one, means of bytes). \<open>binade x\<close> is the exponent \<open>e\<close> with
  \<open>2 powi e \<le> x < 2 powi (e + 1)\<close>.
\<close>

definition binade :: "rat \<Rightarrow> int" where
  "binade x = (case quotient_of x of (p, q) \<Rightarrow>
     (let k = bitlen p - bitlen q in if 2 powi k \<le> x then k else k - 1))"

definition round_half_even :: "rat \<Rightarrow> int" where
  "round_half_even y = (let f = \<lfloor>y\<rfloor>; d = y - of_int f in
     if d < 1 / 2 then f else if 1 / 2 < d then f + 1 else if even f then f else f + 1)"

definition float64_pos :: "rat \<Rightarrow> rat" where
  "float64_pos x = (let e = binade x in
     of_int (round_half_even (x * 2 powi (52 - e))) * 2 powi (e - 52))"

definition float64 :: "rat \<Rightarrow> rat" where
  "float64 x = (if x = 0 then 0 else if x < 0 then - float64_pos (- x) else float64_pos x)"

definition beyond_float :: "rat \<Rightarrow> bool" where
  "beyond_float y = (2 ^ 1024 \<le> \<bar>y\<bar>)"

text \<open>
  \<^verbatim>\<open>int(x)\<close> on a finite float truncates toward zero; on an infinite one it raises
  \<^verbatim>\<open>OverflowError\<close>.
\<close>

definition py_int :: "rat \<Rightarrow> int" where
  "py_int x = (if 0 \<le> x then \<lfloor>x\<rfloor> else \<lceil>x\<rceil>)"

section \<open>Images and the OpenCV operations\<close>

text \<open>
  A NumPy image array: its shape and its elements in row-major order. A colour image has
  a (blue, green, red) triple of bytes per pixel, a grayscale image one byte.
\<close>

record 'p ndarray =
  rows :: nat
  cols :: nat
  data :: "'p list"

type_synonym bgr_image = "(8 word \<times> 8 word \<times> 8 word) ndarray"
type_synonym gray_image = "8 word ndarray"

text \<open>
  The OpenCV functions the preprocessor calls. Each of them either raises \<^verbatim>\<open>cv2.error\<close>
  (\<open>Inl\<close> of its message) or returns. \<open>imread\<close> returns \<^verbatim>\<open>None\<close> when the file cannot be
  opened or decoded, and raises for instance on an image above the size limit of the
  library. \<open>resize\<close> takes the target size as (width, height) and raises for instance
  when it cannot build an image of that size. \<open>bilateralFilter\<close> and
  \<open>adaptiveThreshold\<close> take the numeric parameters of the call. \<open>imwrite\<close> returns
  whether the file was written, and raises for instance when the library has no
  encoder for the extension of the file name.
\<close>

record cv2 =
  imread :: "string \<Rightarrow> string + bgr_image option"
  resize :: "bgr_image \<Rightarrow> int \<times> int \<Rightarrow> string + bgr_image"
  cvtColor :: "bgr_image \<Rightarrow> string + gray_image"
  bilateralFilter :: "gray_image \<Rightarrow> nat \<Rightarrow> nat \<Rightarrow> nat \<Rightarrow> string + gray_image"
  adaptiveThreshold :: "gray_image \<Rightarrow> nat \<Rightarrow> nat \<Rightarrow> nat \<Rightarrow> string + gray_image"
  imwrite :: "string \<Rightarrow> gray_image \<Rightarrow> string + bool"

text \<open>The outcome of an OpenCV call as an outcome of the Python code that makes it.\<close>

definition cv2_call :: "string + 'a \<Rightarrow> error + 'a" where
  "cv2_call r = (case r of Inl msg \<Rightarrow> Inl (Cv2Error msg) | Inr v \<Rightarrow> Inr v)"

text \<open>
  What the process does to the outside world, in order: an engine constructed, a
  recognition run by an engine, a file written (with the boolean \<^verbatim>\<open>cv2.imwrite\<close>
  returned), the language model invoked on a prompt, \<^verbatim>\<open>upload_question\<close> entered with a
  record, the Notion client called with a payload.
\<close>

datatype reader = Reader (reader_langs: "string list") (reader_gpu: bool)

datatype event =
    Reader_created reader
  | Readtext reader
  | Imwrite string bool
  | Model_invoke string
  | Upload_question json
  | Append_block_children json

text \<open>
  The state of the process: the module global \<^verbatim>\<open>_reader\<close> of \<^verbatim>\<open>utils/ocr.py\<close> and the
  events so far. An engine instance is identified with the configuration it was
  constructed with.
\<close>

record process =
  reader_global :: "reader option"
  trace :: "event list"

text \<open>
  A call \<^verbatim>\<open>cv2.imwrite(path, img)\<close> made as a statement: an exception of the call is an
  exception of the statement; a returned boolean is recorded and dropped.
\<close>

definition imwrite_stmt :: "cv2 \<Rightarrow> string \<Rightarrow> gray_image \<Rightarrow> process \<Rightarrow> (error + unit) \<times> process" where
  "imwrite_stmt lib path img s =
     (case imwrite lib path img of
        Inl msg \<Rightarrow> (Inl (Cv2Error msg), s)
      | Inr written \<Rightarrow> (Inr (), s\<lparr>trace := trace s @ [Imwrite path written]\<rparr>))"

text \<open>
  The upscale step (lines 64 to 71). \<^verbatim>\<open>resize_width / w\<close> is a true division of two
  integers, \<^verbatim>\<open>w*scale\<close> and \<^verbatim>\<open>h*scale\<close> are float products (the shape of an image is well
  below \<open>2 ^ 53\<close>, so its conversion to float is exact), \<^verbatim>\<open>int\<close> truncates.
  \<open>upscale_dsize\<close> is the size passed to \<^verbatim>\<open>cv2.resize\<close>, which returns an image of exactly
  that size when it returns.
\<close>

definition upscale_dsize :: "nat \<Rightarrow> nat \<Rightarrow> int \<Rightarrow> error + int \<times> int" where
  "upscale_dsize w h resize_width =
     (let scale = float64 (of_int resize_width / of_nat w) in
      if beyond_float scale then Inl OverflowError
      else if beyond_float (float64 (of_nat w * scale)) then Inl OverflowError
      else if beyond_float (float64 (of_nat h * scale)) then Inl OverflowError
      else Inr (py_int (float64 (of_nat w * scale)), py_int (float64 (of_nat h * scale))))"

definition upscale :: "cv2 \<Rightarrow> bgr_image \<Rightarrow> int \<Rightarrow> error + bgr_image" where
  "upscale lib img resize_width =
     (let h = rows img; w = cols img in
      if int w < resize_width then
        (if w = 0 then Inl ZeroDivisionError
         else (case upscale_dsize w h resize_width of
                 Inl e \<Rightarrow> Inl e
               | Inr dsize \<Rightarrow> cv2_call (resize lib img dsize)))
      else Inr img)"

text \<open>
  Polarity normalization (lines 79 to 83). \<^verbatim>\<open>np.mean\<close> of a byte array adds the elements in
  float64, which is exact below \<open>2 ^ 53\<close>, and divides by the element count; on an empty
  array it is NaN (\<open>None\<close> here), and every comparison with NaN is false.
\<close>

definition np_mean :: "gray_image \<Rightarrow> rat option" where
  "np_mean a =
     (if data a = [] then None
      else Some (float64 (of_nat (sum_list (map unat (data a))) / of_nat (length (data a)))))"

definition bitwise_not :: "gray_image \<Rightarrow> gray_image" where
  "bitwise_not a = a\<lparr>data := map (\<lambda>p. NOT p) (data a)\<rparr>"

definition is_dark :: "gray_image \<Rightarrow> bool" where
  "is_dark gray = (case np_mean gray of None \<Rightarrow> False | Some mean_intensity \<Rightarrow> mean_intensity < 100)"

definition normalize_polarity :: "gray_image \<Rightarrow> gray_image" where
  "normalize_polarity gray = (if is_dark gray then bitwise_not gray else gray)"

text \<open>
  \<^verbatim>\<open>preprocess_image(path, resize_width)\<close>. The calls are made in the order of the source;
  none of them is inside a \<^verbatim>\<open>try\<close>, so the first exception ends the function. The only
  \<^verbatim>\<open>raise\<close> of the function itself is the \<^verbatim>\<open>FileNotFoundError\<close> after \<^verbatim>\<open>cv2.imread\<close> returned
  \<^verbatim>\<open>None\<close>.
\<close>

definition preprocess_image ::
  "cv2 \<Rightarrow> string \<Rightarrow> int \<Rightarrow> process \<Rightarrow> (error + gray_image) \<times> process" where
  "preprocess_image lib path resize_width s =
     (case imread lib path of
        Inl msg \<Rightarrow> (Inl (Cv2Error msg), s)
      | Inr None \<Rightarrow> (Inl (FileNotFoundError path), s)
      | Inr (Some img) \<Rightarrow>
          (case upscale lib img resize_width of
             Inl e \<Rightarrow> (Inl e, s)
           | Inr img1 \<Rightarrow>
               (case cv2_call (cvtColor lib img1) of
                  Inl e \<Rightarrow> (Inl e, s)
                | Inr gray0 \<Rightarrow>
                    (let gray = normalize_polarity gray0 in
                     case imwrite_stmt lib ''outputs/preprocessed-gray.jpg'' gray s of
                       (Inl e, s1) \<Rightarrow> (Inl e, s1)
                     | (Inr u1, s1) \<Rightarrow>
                         (case cv2_call (bilateralFilter lib gray 9 15 15) of
                            Inl e \<Rightarrow> (Inl e, s1)
                          | Inr blur \<Rightarrow>
                              (case imwrite_stmt lib ''outputs/preprocessed-blur.jpg'' blur s1 of
                                 (Inl e, s2) \<Rightarrow> (Inl e, s2)
                               | (Inr u2, s2) \<Rightarrow>
                                   (case cv2_call (adaptiveThreshold lib blur 255 15 8) of
                                      Inl e \<Rightarrow> (Inl e, s2)
                                    | Inr th \<Rightarrow>
                                        (case imwrite_stmt lib ''outputs/preprocessed.jpg'' th s2 of
                                           (Inl e, s3) \<Rightarrow> (Inl e, s3)
                                         | (Inr u3, s3) \<Rightarrow> (Inr th, s3)))))))))"

section \<open>The text extractor\<close>

text \<open>
  The collaborators of the pipeline, beyond OpenCV: the recognition engine (the fragments
  \<^verbatim>\<open>readtext(..., detail=0, paragraph=True)\<close> returns, which depend on the engine's
  configuration and on the image), the prompt template filled with the question text,
  the language model (the content of its reply, or the exception it raises),
  \<^verbatim>\<open>json.loads\<close> (\<open>None\<close> when it raises \<^verbatim>\<open>JSONDecodeError\<close>), and the Notion client with
  the configured parent page (\<open>None\<close> when the call completes, otherwise the exception).
\<close>

record env =
  cv :: cv2
  readtext :: "reader \<Rightarrow> gray_image \<Rightarrow> string list"
  prompt_format :: "string \<Rightarrow> string"
  model_invoke :: "string \<Rightarrow> error + string"
  json_loads :: "string \<Rightarrow> json option"
  append_block_children :: "json \<Rightarrow> error option"

text \<open>
  \<^verbatim>\<open>init_reader\<close>: the engine is constructed only while the global is \<^verbatim>\<open>None\<close>; otherwise
  the stored instance is returned, whatever \<open>lang_list\<close> and \<open>gpu\<close> are.
\<close>

definition init_reader :: "string list \<Rightarrow> bool \<Rightarrow> process \<Rightarrow> reader \<times> process" where
  "init_reader lang_list gpu s =
     (case reader_global s of
        None \<Rightarrow>
          (Reader lang_list gpu,
           s\<lparr>reader_global := Some (Reader lang_list gpu),
             trace := trace s @ [Reader_created (Reader lang_list gpu)]\<rparr>)
      | Some r \<Rightarrow> (r, s))"

text \<open>
  The list comprehension \<^verbatim>\<open>[r.strip() for r in results if r.strip()]\<close> and the join of
  line 143.
\<close>

definition join_fragments :: "string list \<Rightarrow> string" where
  "join_fragments results = join newline (map strip (filter (\<lambda>r. strip r \<noteq> []) results))"

text \<open>
  \<^verbatim>\<open>image_to_text(path, lang_list, gpu)\<close>. The engine is obtained before the image is
  read. The conversion to a PIL image and back to an array leaves the buffer as it is.
\<close>

definition image_to_text ::
  "env \<Rightarrow> string \<Rightarrow> string list \<Rightarrow> bool \<Rightarrow> process \<Rightarrow> (error + string) \<times> process" where
  "image_to_text ev path langs use_gpu s =
     (case init_reader langs use_gpu s of
        (rd, s1) \<Rightarrow>
          (case preprocess_image (cv ev) path 1600 s1 of
             (Inl e, s2) \<Rightarrow> (Inl e, s2)
           | (Inr prep, s2) \<Rightarrow>
               (Inr (join_fragments (readtext ev rd prep)),
                s2\<lparr>trace := trace s2 @ [Readtext rd]\<rparr>)))"

section \<open>The question structurer\<close>

text \<open>\<^verbatim>\<open>answer_question_with_llm(question_text)\<close> of \<^verbatim>\<open>utils/llm.py\<close>.\<close>

definition answer_question_with_llm ::
  "env \<Rightarrow> string \<Rightarrow> process \<Rightarrow> (error + string) \<times> process" where
  "answer_question_with_llm ev question_text s =
     (let prompt_filled = prompt_format ev question_text;
          s1 = s\<lparr>trace := trace s @ [Model_invoke prompt_filled]\<rparr>
      in case model_invoke ev prompt_filled of
           Inl e \<Rightarrow> (Inl e, s1)
         | Inr content \<Rightarrow> (Inr (strip content), s1))"

section \<open>The publisher\<close>

text \<open>
  The toggle block built for one answer in \<^verbatim>\<open>build_notion_payload\<close>, from the label, the
  colour and the two values looked up in the answer.
\<close>

definition toggle_dict :: "string \<Rightarrow> string \<Rightarrow> json \<Rightarrow> json \<Rightarrow> json" where
  "toggle_dict correctness_label color opt expl =
     JObj [(''object'', JStr ''block''),
           (''type'', JStr ''toggle''),
           (''toggle'', JObj
              [(''rich_text'', JArr
                  [JObj [(''type'', JStr ''text''),
                         (''text'', JObj [(''content'', opt)])]]),
               (''children'', JArr
                  [JObj [(''object'', JStr ''block''),
                         (''type'', JStr ''paragraph''),
                         (''paragraph'', JObj
                            [(''rich_text'', JArr
                                [JObj [(''type'', JStr ''text''),
                                       (''text'', JObj
                                          [(''content'', JStr (correctness_label @ '': ''))]),
                                       (''annotations'', JObj
                                          [(''code'', JBool True),
                                           (''color'', JStr color)])],
                                 JObj [(''type'', JStr ''text''),
                                       (''text'', JObj [(''content'', expl)])]])])]])])]"

text \<open>
  One pass of the loop body: \<^verbatim>\<open>ans["isCorrect"]\<close> is read for the label and for the
  colour, then \<^verbatim>\<open>ans["option"]\<close> and \<^verbatim>\<open>ans["explanation"]\<close> while the dict is built.
\<close>

definition toggle_block :: "json \<Rightarrow> error + json" where
  "toggle_block ans =
     (case subscript ans ''isCorrect'' of
        Inl e \<Rightarrow> Inl e
      | Inr c \<Rightarrow>
          (let correctness_label = (if truthy c then ''Correcto'' else ''Incorrecto'');
               color = (if truthy c then ''green'' else ''red'')
           in case subscript ans ''option'' of
                Inl e \<Rightarrow> Inl e
              | Inr opt \<Rightarrow>
                  (case subscript ans ''explanation'' of
                     Inl e \<Rightarrow> Inl e
                   | Inr expl \<Rightarrow> Inr (toggle_dict correctness_label color opt expl))))"

text \<open>The loop over the answers, appending to \<open>toggles\<close>.\<close>

fun build_toggles :: "json list \<Rightarrow> json list \<Rightarrow> error + json list" where
  "build_toggles [] toggles = Inr toggles"
| "build_toggles (ans # rest) toggles =
     (case toggle_block ans of
        Inl e \<Rightarrow> Inl e
      | Inr toggle \<Rightarrow> build_toggles rest (toggles @ [toggle]))"

definition build_notion_payload :: "json \<Rightarrow> error + json" where
  "build_notion_payload question_data =
     (case subscript question_data ''answer'' of
        Inl e \<Rightarrow> Inl e
      | Inr answers \<Rightarrow>
          (case iterate answers of
             Inl e \<Rightarrow> Inl e
           | Inr anss \<Rightarrow>
               (case build_toggles anss [] of
                  Inl e \<Rightarrow> Inl e
                | Inr toggles \<Rightarrow>
                    (case subscript question_data ''question'' of
                       Inl e \<Rightarrow> Inl e
                     | Inr q \<Rightarrow>
                         Inr (JObj
                           [(''children'', JArr
                              [JObj [(''object'', JStr ''block''),
                                     (''type'', JStr ''numbered_list_item''),
                                     (''numbered_list_item'', JObj
                                        [(''rich_text'', JArr
                                            [JObj [(''type'', JStr ''text''),
                                                   (''text'', JObj [(''content'', q)])]]),
                                         (''children'', JArr toggles)])]])])))))"

text \<open>
  \<^verbatim>\<open>upload_question(question_data)\<close>: the payload is built, the Notion client is called,
  \<^verbatim>\<open>True\<close> is returned.
\<close>

definition upload_question :: "env \<Rightarrow> json \<Rightarrow> process \<Rightarrow> (error + bool) \<times> process" where
  "upload_question ev question_data s =
     (let s1 = s\<lparr>trace := trace s @ [Upload_question question_data]\<rparr>
      in case build_notion_payload question_data of
           Inl e \<Rightarrow> (Inl e, s1)
         | Inr notion_payload \<Rightarrow>
             (let s2 = s1\<lparr>trace := trace s1 @ [Append_block_children notion_payload]\<rparr>
              in case append_block_children ev notion_payload of
                   Some e \<Rightarrow> (Inl e, s2)
                 | None \<Rightarrow> (Inr True, s2)))"

section \<open>The workflow\<close>

text \<open>
  \<^verbatim>\<open>GraphState\<close>: a dict in which each of the three keys may be absent. The input of the
  module, \<^verbatim>\<open>{"file_path": "images/Prueba.png"}\<close>, has only the first. A node receives
  the entries written so far, reads them with \<^verbatim>\<open>state[key]\<close> (a \<^verbatim>\<open>KeyError\<close> when the key
  is absent), and the dict it returns is the state the next node receives. What the
  nodes print is not part of the model.
\<close>

record GraphState =
  file_path :: "string option"
  ocr_text :: "string option"
  question :: "json option"

definition input_state :: GraphState where
  "input_state = \<lparr>file_path = Some ''images/Prueba.png'', ocr_text = None, question = None\<rparr>"

definition get_question_text ::
  "env \<Rightarrow> GraphState \<Rightarrow> process \<Rightarrow> (error + GraphState) \<times> process" where
  "get_question_text ev state s =
     (case file_path state of
        None \<Rightarrow> (Inl (KeyError ''file_path''), s)
      | Some path \<Rightarrow>
          (case image_to_text ev path [''en''] True s of
             (Inl e, s1) \<Rightarrow> (Inl e, s1)
           | (Inr text, s1) \<Rightarrow>
               (if strip text = [] then (Inr state, s1)
                else (Inr (state\<lparr>ocr_text := Some text\<rparr>), s1))))"

definition convert_text_to_json ::
  "env \<Rightarrow> GraphState \<Rightarrow> process \<Rightarrow> (error + GraphState) \<times> process" where
  "convert_text_to_json ev state s =
     (case ocr_text state of
        None \<Rightarrow> (Inl (KeyError ''ocr_text''), s)
      | Some text \<Rightarrow>
          (case answer_question_with_llm ev text s of
             (Inl e, s1) \<Rightarrow> (Inl e, s1)
           | (Inr reply, s1) \<Rightarrow>
               (case json_loads ev reply of
                  None \<Rightarrow> (Inl JSONDecodeError, s1)
                | Some q \<Rightarrow> (Inr (state\<lparr>question := Some q\<rparr>), s1))))"

definition upload_to_notion ::
  "env \<Rightarrow> GraphState \<Rightarrow> process \<Rightarrow> (error + GraphState) \<times> process" where
  "upload_to_notion ev state s =
     (case question state of
        None \<Rightarrow> (Inl (KeyError ''question''), s)
      | Some q \<Rightarrow>
          (case upload_question ev q s of
             (Inl e, s1) \<Rightarrow> (Inl e, s1)
           | (Inr uploaded, s1) \<Rightarrow> (Inr state, s1)))"

text \<open>
  The graph: three nodes, the entry point, and the edges added with \<^verbatim>\<open>add_edge\<close>
  (\<open>None\<close> is \<^verbatim>\<open>END\<close>). No edge is conditional.
\<close>

datatype node = Get_question_text | Convert_text_to_json | Upload_to_notion

fun node_fn :: "env \<Rightarrow> node \<Rightarrow> GraphState \<Rightarrow> process \<Rightarrow> (error + GraphState) \<times> process" where
  "node_fn ev Get_question_text = get_question_text ev"
| "node_fn ev Convert_text_to_json = convert_text_to_json ev"
| "node_fn ev Upload_to_notion = upload_to_notion ev"

definition entry_point :: node where
  "entry_point = Get_question_text"

fun edge :: "node \<Rightarrow> node option" where
  "edge Get_question_text = Some Convert_text_to_json"
| "edge Convert_text_to_json = Some Upload_to_notion"
| "edge Upload_to_notion = None"

fun rank :: "node \<Rightarrow> nat" where
  "rank Get_question_text = 2"
| "rank Convert_text_to_json = 1"
| "rank Upload_to_notion = 0"

text \<open>
  Running the graph from a node: the node's function is applied to the state; an
  exception ends the run (recorded with the node that raised it); otherwise the run
  follows the node's edge.
\<close>

function run_from ::
  "env \<Rightarrow> node \<Rightarrow> GraphState \<Rightarrow> process \<Rightarrow> ((node \<times> error) + GraphState) \<times> process" where
  "run_from ev n state s =
     (case node_fn ev n state s of
        (Inl e, s1) \<Rightarrow> (Inl (n, e), s1)
      | (Inr state1, s1) \<Rightarrow>
          (case edge n of
             None \<Rightarrow> (Inr state1, s1)
           | Some n1 \<Rightarrow> run_from ev n1 state1 s1))"
  by pat_completeness auto
termination
  by (relation "measure (\<lambda>(ev, n, state, s). rank n)") (auto elim: edge.elims)

definition graph_invoke ::
  "env \<Rightarrow> GraphState \<Rightarrow> process \<Rightarrow> ((node \<times> error) + GraphState) \<times> process" where
  "graph_invoke ev state s = run_from ev entry_point state s"

text \<open>The records with which \<^verbatim>\<open>upload_question\<close> was entered, in order.\<close>

fun publisher_calls :: "event list \<Rightarrow> json list" where
  "publisher_calls [] = []"
| "publisher_calls (Upload_question q # es) = q # publisher_calls es"
| "publisher_calls (e # es) = publisher_calls es"

text \<open>The prompts with which the language model was invoked, in order.\<close>

fun structurer_calls :: "event list \<Rightarrow> string list" where
  "structurer_calls [] = []"
| "structurer_calls (Model_invoke p # es) = p # structurer_calls es"
| "structurer_calls (e # es) = structurer_calls es"

section \<open>Vocabulary of the properties\<close>

text \<open>
  A blank string is empty or made of whitespace only. \<open>nonblank_joined\<close> joins the
  fragments that are not blank with newlines, leaving each fragment as it is.
\<close>

definition blank :: "string \<Rightarrow> bool" where
  "blank s = list_all isspace s"

definition nonblank_joined :: "string list \<Rightarrow> string" where
  "nonblank_joined fragments = join newline (filter (\<lambda>r. \<not> blank r) fragments)"

text \<open>A process that has just started: no engine yet, nothing done.\<close>

definition fresh :: process where
  "fresh = \<lparr>reader_global = None, trace = []\<rparr>"

text \<open>The engines constructed and the engines that ran a recognition, in order.\<close>

fun engines_created :: "event list \<Rightarrow> reader list" where
  "engines_created [] = []"
| "engines_created (Reader_created r # es) = r # engines_created es"
| "engines_created (e # es) = engines_created es"

fun engines_used :: "event list \<Rightarrow> reader list" where
  "engines_used [] = []"
| "engines_used (Readtext r # es) = r # engines_used es"
| "engines_used (e # es) = engines_used es"

text \<open>
  The shape of a structured question record, as the docstring of
  \<^verbatim>\<open>build_notion_payload\<close> gives it: a dict with a string under \<^verbatim>\<open>"question"\<close> and, under
  \<^verbatim>\<open>"answer"\<close>, a list of dicts that each have a string \<^verbatim>\<open>"option"\<close>, a boolean
  \<^verbatim>\<open>"isCorrect"\<close> and a string \<^verbatim>\<open>"explanation"\<close>.
\<close>

definition is_str :: "json \<Rightarrow> bool" where
  "is_str j = (case j of JStr s \<Rightarrow> True | _ \<Rightarrow> False)"

definition is_bool :: "json \<Rightarrow> bool" where
  "is_bool j = (case j of JBool b \<Rightarrow> True | _ \<Rightarrow> False)"

definition has_field :: "json \<Rightarrow> string \<Rightarrow> (json \<Rightarrow> bool) \<Rightarrow> bool" where
  "has_field j k P = (case subscript j k of Inl e \<Rightarrow> False | Inr v \<Rightarrow> P v)"

definition answer_entry :: "json \<Rightarrow> bool" where
  "answer_entry a =
     (has_field a ''option'' is_str \<and> has_field a ''isCorrect'' is_bool
      \<and> has_field a ''explanation'' is_str)"

definition is_answer_list :: "json \<Rightarrow> bool" where
  "is_answer_list j = (case j of JArr anss \<Rightarrow> list_all answer_entry anss | _ \<Rightarrow> False)"

definition structured_record :: "json \<Rightarrow> bool" where
  "structured_record q = (has_field q ''question'' is_str \<and> has_field q ''answer'' is_answer_list)"

text \<open>
  Reading a payload: a path of dict keys and list positions, and the places of a Notion
  payload the properties speak about.
\<close>

datatype step = Key string | Idx nat

fun step_into :: "json option \<Rightarrow> step \<Rightarrow> json option" where
  "step_into (Some (JObj kvs)) (Key k) = map_of kvs k"
| "step_into (Some (JArr xs)) (Idx i) = (if i < length xs then Some (xs ! i) else None)"
| "step_into _ _ = None"

definition lookup_path :: "json \<Rightarrow> step list \<Rightarrow> json option" where
  "lookup_path j path = foldl step_into (Some j) path"

definition payload_toggles :: "json \<Rightarrow> json option" where
  "payload_toggles payload =
     lookup_path payload [Key ''children'', Idx 0, Key ''numbered_list_item'', Key ''children'']"

definition block_type :: "json \<Rightarrow> json option" where
  "block_type b = lookup_path b [Key ''type'']"

definition toggle_text :: "json \<Rightarrow> json option" where
  "toggle_text t =
     lookup_path t [Key ''toggle'', Key ''rich_text'', Idx 0, Key ''text'', Key ''content'']"

definition toggle_children :: "json \<Rightarrow> json option" where
  "toggle_children t = lookup_path t [Key ''toggle'', Key ''children'']"

definition paragraph_label :: "json \<Rightarrow> json option" where
  "paragraph_label p =
     lookup_path p [Key ''paragraph'', Key ''rich_text'', Idx 0, Key ''text'', Key ''content'']"

definition paragraph_color :: "json \<Rightarrow> json option" where
  "paragraph_color p =
     lookup_path p [Key ''paragraph'', Key ''rich_text'', Idx 0, Key ''annotations'', Key ''color'']"

definition paragraph_explanation :: "json \<Rightarrow> json option" where
  "paragraph_explanation p =
     lookup_path p [Key ''paragraph'', Key ''rich_text'', Idx 1, Key ''text'', Key ''content'']"

section \<open>Stand-in collaborators\<close>

text \<open>
  Concrete collaborators on which the model can be run. \<open>uniform_cv2\<close> behaves as
  OpenCV does on images of one uniform gray level: the gray conversion of a pixel with
  equal channels is that value, the bilateral filter leaves a constant image as it is,
  and the adaptive threshold of a constant image is white everywhere (each pixel lies
  above its neighbourhood mean minus 8). Its \<open>resize\<close> raises when the target has
  \<open>2 ^ 31\<close> pixels or more, or a side that is not positive: OpenCV cannot build such an
  image. Its \<open>imwrite\<close> returns whether the path is writable. \<open>white_page\<close> is a white
  image 1600 pixels wide and one pixel high; \<open>tall_strip\<close> is a white image one pixel
  wide and 20000 pixels high.
\<close>

definition uniform_cv2 :: "(string \<Rightarrow> bgr_image option) \<Rightarrow> (string \<Rightarrow> bool) \<Rightarrow> cv2" where
  "uniform_cv2 files writable =
     \<lparr>imread = (\<lambda>path. Inr (files path)),
      resize = (\<lambda>img (w, h).
         if w \<le> 0 \<or> h \<le> 0 \<or> 2 ^ 31 \<le> w * h then Inl ''resize''
         else Inr \<lparr>rows = nat h, cols = nat w,
                   data = replicate (nat w * nat h) (hd (data img))\<rparr>),
      cvtColor = (\<lambda>img.
         Inr \<lparr>rows = rows img, cols = cols img, data = map (\<lambda>(b, g, r). g) (data img)\<rparr>),
      bilateralFilter = (\<lambda>gray d sigma_color sigma_space. Inr gray),
      adaptiveThreshold = (\<lambda>gray max_value block_size c.
         Inr (gray\<lparr>data := map (\<lambda>p. 255) (data gray)\<rparr>)),
      imwrite = (\<lambda>path img. Inr (writable path))\<rparr>"

definition white_page :: bgr_image where
  "white_page = \<lparr>rows = 1, cols = 1600, data = replicate 1600 (255, 255, 255)\<rparr>"

definition one_image :: "string \<Rightarrow> bgr_image option" where
  "one_image path = (if path = ''images/Prueba.png'' then Some white_page else None)"




text \<open>
  \<open>stand_in fragments reply parse\<close>: the engine returns \<open>fragments\<close> for every image, the
  language model answers \<open>reply\<close> to every prompt, \<^verbatim>\<open>json.loads\<close> is \<open>parse\<close>, and the Notion
  client accepts every payload.
\<close>

definition stand_in :: "string list \<Rightarrow> error + string \<Rightarrow> (string \<Rightarrow> json option) \<Rightarrow> env" where
  "stand_in fragments reply parse =
     \<lparr>cv = uniform_cv2 one_image (\<lambda>path. True),
      readtext = (\<lambda>rd img. fragments),
      prompt_format = (\<lambda>question_text. ''Now analyze the following question: '' @ question_text),
      model_invoke = (\<lambda>prompt. reply),
      json_loads = parse,
      append_block_children = (\<lambda>payload. None)\<rparr>"

text \<open>
  A reply of the language model in the requested format, the record \<^verbatim>\<open>json.loads\<close>
  returns for it, and the parser that knows only the texts listed.
\<close>

definition s3_reply :: string where
  \<open>s3_reply = ''{"question": "What is S3?", "answer": [{"option": "Storage", "isCorrect": true, "explanation": "Si"}, {"option": "Compute", "isCorrect": false, "explanation": "No"}]}''\<close>

definition s3_record :: json where
  "s3_record = JObj [(''question'', JStr ''What is S3?''),
     (''answer'', JArr
        [JObj [(''option'', JStr ''Storage''), (''isCorrect'', JBool True),
               (''explanation'', JStr ''Si'')],
         JObj [(''option'', JStr ''Compute''), (''isCorrect'', JBool False),
               (''explanation'', JStr ''No'')]])]"

fun parse_table :: "(string \<times> json) list \<Rightarrow> string \<Rightarrow> json option" where
  "parse_table table s = map_of table s"

section \<open>Auxiliary facts\<close>

lemma strip_Nil_iff: "strip s = [] \<longleftrightarrow> blank s"
proof -
  have a: "(\<forall>x\<in>set (dropWhile isspace s). isspace x) \<longleftrightarrow> (\<forall>x\<in>set s. isspace x)"
    by (induction s) auto
  show ?thesis
    by (simp add: strip_def blank_def list_all_iff a)
qed

lemma float64_255: "float64 255 = 255" by code_simp

lemmas model_defs = preprocess_image_def upscale_def normalize_polarity_def is_dark_def np_mean_def
  bitwise_not_def imwrite_stmt_def cv2_call_def image_to_text_def init_reader_def join_fragments_def
  answer_question_with_llm_def upload_question_def get_question_text_def convert_text_to_json_def
  upload_to_notion_def

lemmas stand_in_defs = stand_in_def uniform_cv2_def one_image_def white_page_def fresh_def input_state_def

lemma publisher_calls_append: "publisher_calls (xs @ ys) = publisher_calls xs @ publisher_calls ys"
  by (induction xs rule: publisher_calls.induct) simp_all

lemma structurer_calls_append: "structurer_calls (xs @ ys) = structurer_calls xs @ structurer_calls ys"
  by (induction xs rule: structurer_calls.induct) simp_all

lemma graph_invoke_unfold:
  "graph_invoke ev state s =
     (case get_question_text ev state s of
        (Inl e, s1) \<Rightarrow> (Inl (Get_question_text, e), s1)
      | (Inr state1, s1) \<Rightarrow>
          (case convert_text_to_json ev state1 s1 of
             (Inl e, s2) \<Rightarrow> (Inl (Convert_text_to_json, e), s2)
           | (Inr state2, s2) \<Rightarrow>
               (case upload_to_notion ev state2 s2 of
                  (Inl e, s3) \<Rightarrow> (Inl (Upload_to_notion, e), s3)
                | (Inr state3, s3) \<Rightarrow> (Inr state3, s3))))"
  unfolding graph_invoke_def entry_point_def
  by (subst run_from.simps) (simp split: prod.splits sum.splits)

lemma imwrite_stmt_publisher:
  "publisher_calls (trace (snd (imwrite_stmt lib path img s))) = publisher_calls (trace s)"
  by (simp add: imwrite_stmt_def publisher_calls_append split: sum.splits)

lemma preprocess_image_publisher:
  "publisher_calls (trace (snd (preprocess_image lib path rw s))) = publisher_calls (trace s)"
proof -
  have w: "publisher_calls (trace s') = publisher_calls (trace s0)"
    if "imwrite_stmt lib p img s0 = (r, s')" for p img s0 r s'
    using imwrite_stmt_publisher [of lib p img s0] that by simp
  show ?thesis
    by (auto simp: preprocess_image_def Let_def split: option.splits sum.splits prod.splits dest!: w)
qed

lemma image_to_text_publisher:
  "publisher_calls (trace (snd (image_to_text ev path langs g s))) = publisher_calls (trace s)"
proof -
  have "publisher_calls (trace (snd (init_reader langs g s))) = publisher_calls (trace s)"
    by (simp add: init_reader_def publisher_calls_append split: option.splits)
  then show ?thesis
    using preprocess_image_publisher [of "cv ev" path 1600 "snd (init_reader langs g s)"]
    by (auto simp: image_to_text_def publisher_calls_append split: prod.splits sum.splits)
qed

lemma get_question_text_publisher:
  "publisher_calls (trace (snd (get_question_text ev state s))) = publisher_calls (trace s)"
proof (cases "file_path state")
  case None
  then show ?thesis by (simp add: get_question_text_def)
next
  case (Some path)
  obtain r s1 where eq: "image_to_text ev path [''en''] True s = (r, s1)"
    by (cases "image_to_text ev path [''en''] True s")
  have "publisher_calls (trace s1) = publisher_calls (trace s)"
    using image_to_text_publisher [of ev path "[''en'']" True s] eq by simp
  with Some eq show ?thesis
    by (cases r) (simp_all add: get_question_text_def)
qed

lemma convert_text_to_json_publisher:
  "publisher_calls (trace (snd (convert_text_to_json ev state s))) = publisher_calls (trace s)"
  by (auto simp: convert_text_to_json_def answer_question_with_llm_def Let_def publisher_calls_append
      split: option.splits prod.splits sum.splits)

lemma upload_question_publisher:
  "publisher_calls (trace (snd (upload_question ev q s))) = publisher_calls (trace s) @ [q]"
  by (simp add: upload_question_def Let_def publisher_calls_append split: option.splits sum.splits)

lemma strip_s3_reply: "strip s3_reply = s3_reply"
  by (simp add: s3_reply_def strip_def isspace_def)

lemma strip_empty: "strip [] = []"
  by (simp add: strip_def)

section \<open>The rounded mean and the exact mean\<close>

text \<open>
  Rounding to binary64 moves a positive value by at most half a unit in the last place
  and never across a representable value. A mean of bytes over fewer than \<open>2 ^ 47\<close>
  elements is therefore below 100 after rounding exactly when it is below 100 before.
\<close>

lemma binade_bounds:
  assumes "0 < x"
  shows "2 powi (binade x) \<le> x \<and> x < 2 powi (binade x + 1)"
proof -
  obtain p q where pq: "quotient_of x = (p, q)" by (cases "quotient_of x")
  have q: "0 < q" using quotient_of_denom_pos [OF pq] .
  have x: "x = of_int p / of_int q" using quotient_of_div [OF pq] .
  have p: "0 < p" using assms q x by (simp add: zero_less_divide_iff)
  define bp where "bp = bitlen p"
  define bq where "bq = bitlen q"
  have bp1: "1 \<le> bp" using bitlen_eq_zero_iff [of p] bitlen_nonneg [of p] p by (simp add: bp_def)
  have bq1: "1 \<le> bq" using bitlen_eq_zero_iff [of q] bitlen_nonneg [of q] q by (simp add: bq_def)
  have "2 ^ nat (bp - 1) \<le> p" "p < 2 ^ nat bp"
    using bitlen_bounds [OF p] by (simp_all add: bp_def)
  then have "(of_int (2 ^ nat (bp - 1)) :: rat) \<le> of_int p" "(of_int p :: rat) < of_int (2 ^ nat bp)"
    by (simp_all only: of_int_le_iff of_int_less_iff)
  then have P: "(2::rat) powi (bp - 1) \<le> of_int p" "of_int p < (2::rat) powi bp"
    using bp1 by (simp_all add: power_int_nonneg_exp)
  have "2 ^ nat (bq - 1) \<le> q" "q < 2 ^ nat bq"
    using bitlen_bounds [OF q] by (simp_all add: bq_def)
  then have "(of_int (2 ^ nat (bq - 1)) :: rat) \<le> of_int q" "(of_int q :: rat) < of_int (2 ^ nat bq)"
    by (simp_all only: of_int_le_iff of_int_less_iff)
  then have Q: "(2::rat) powi (bq - 1) \<le> of_int q" "of_int q < (2::rat) powi bq"
    using bq1 by (simp_all add: power_int_nonneg_exp)
  have up: "x < 2 powi (bp - bq + 1)"
  proof -
    have "of_int p / of_int q < (2::rat) powi bp / 2 powi (bq - 1)"
      using p P(2) Q(1) by (intro frac_less) simp_all
    also have "(2::rat) powi bp / 2 powi (bq - 1) = 2 powi (bp - (bq - 1))"
      by (simp add: power_int_diff)
    finally show ?thesis by (simp add: x algebra_simps)
  qed
  have lo: "2 powi (bp - bq - 1) < x"
  proof -
    have "(2::rat) powi (bp - 1) / 2 powi bq < of_int p / of_int q"
      using q P(1) Q(2) by (intro frac_less2) simp_all
    moreover have "(2::rat) powi (bp - 1) / 2 powi bq = 2 powi (bp - 1 - bq)"
      by (simp add: power_int_diff)
    ultimately show ?thesis by (simp add: x algebra_simps)
  qed
  have b: "binade x = (if 2 powi (bp - bq) \<le> x then bp - bq else bp - bq - 1)"
    by (simp add: binade_def pq bp_def bq_def Let_def)
  show ?thesis
  proof (cases "2 powi (bp - bq) \<le> x")
    case True
    with b up show ?thesis by simp
  next
    case False
    with b lo show ?thesis by simp
  qed
qed

lemma round_half_even_upper: "of_int (round_half_even y) \<le> y + 1 / 2"
proof -
  have c: "round_half_even y = \<lfloor>y\<rfloor> \<or> (round_half_even y = \<lfloor>y\<rfloor> + 1 \<and> 1 / 2 \<le> y - of_int \<lfloor>y\<rfloor>)"
    by (auto simp: round_half_even_def Let_def)
  have f: "of_int \<lfloor>y\<rfloor> \<le> y" by simp
  from c show ?thesis
  proof
    assume "round_half_even y = \<lfloor>y\<rfloor>"
    moreover have "of_int \<lfloor>y\<rfloor> \<le> y + 1 / 2" by (rule order_trans [OF f]) simp
    ultimately show ?thesis by simp
  next
    assume a: "round_half_even y = \<lfloor>y\<rfloor> + 1 \<and> 1 / 2 \<le> y - of_int \<lfloor>y\<rfloor>"
    then have "of_int (round_half_even y) = of_int \<lfloor>y\<rfloor> + (1::rat)" by simp
    moreover from a have "of_int \<lfloor>y\<rfloor> + (1::rat) \<le> y + 1 / 2" by linarith
    ultimately show ?thesis by simp
  qed
qed

lemma round_half_even_lower: "\<lfloor>y\<rfloor> \<le> round_half_even y"
  by (simp add: round_half_even_def Let_def)

lemma float64_pos_upper:
  "float64_pos x \<le> x + 2 powi (binade x - 53)"
proof -
  define e where "e = binade x"
  have "float64_pos x = of_int (round_half_even (x * 2 powi (52 - e))) * 2 powi (e - 52)"
    by (simp add: float64_pos_def e_def Let_def)
  also have "\<dots> \<le> (x * 2 powi (52 - e) + 1 / 2) * 2 powi (e - 52)"
    by (intro mult_right_mono round_half_even_upper) simp
  also have "\<dots> = x * (2 powi (52 - e) * 2 powi (e - 52)) + 2 powi (e - 52) / 2"
    by (simp add: algebra_simps)
  also have "(2::rat) powi (52 - e) * 2 powi (e - 52) = 1"
    by (simp flip: power_int_add)
  also have "(2::rat) powi (e - 52) / 2 = 2 powi (e - 53)"
    using power_int_diff [of "2::rat" "e - 52" 1] by simp
  finally show ?thesis by (simp add: e_def)
qed

lemma float64_pos_lower:
  assumes "of_int K * 2 powi (binade x - 52) \<le> x"
  shows "of_int K * 2 powi (binade x - 52) \<le> float64_pos x"
proof -
  define e where "e = binade x"
  have "of_int K = of_int K * ((2::rat) powi (e - 52) * 2 powi (52 - e))"
    by (simp flip: power_int_add)
  also have "\<dots> \<le> x * 2 powi (52 - e)"
    using assms by (simp add: e_def mult.assoc [symmetric] mult_right_mono)
  finally have "K \<le> \<lfloor>x * 2 powi (52 - e)\<rfloor>" by (simp add: le_floor_iff)
  then have "K \<le> round_half_even (x * 2 powi (52 - e))"
    using round_half_even_lower [of "x * 2 powi (52 - e)"] by simp
  then have "(of_int K :: rat) \<le> of_int (round_half_even (x * 2 powi (52 - e)))"
    by simp
  then have "(of_int K :: rat) * 2 powi (e - 52) \<le> of_int (round_half_even (x * 2 powi (52 - e))) * 2 powi (e - 52)"
    by (intro mult_right_mono) simp_all
  then show ?thesis by (simp add: float64_pos_def e_def Let_def)
qed


lemma float64_below_100_iff:
  fixes S n :: nat
  assumes n: "0 < n" and small: "n < 2 ^ 47" and bytes: "S \<le> 255 * n"
  shows "float64 (of_nat S / of_nat n) < 100 \<longleftrightarrow> S < 100 * n"
proof (cases "S = 0")
  case True
  with n show ?thesis by (simp add: float64_def)
next
  case False
  define x :: rat where "x = of_nat S / of_nat n"
  define e where "e = binade x"
  have xpos: "0 < x" using False n by (simp add: x_def)
  have fx: "float64 x = float64_pos x" using xpos by (simp add: float64_def)
  have lo: "2 powi e \<le> x" and hi: "x < 2 powi (e + 1)"
    using binade_bounds [OF xpos] by (simp_all add: e_def)
  have npos: "(0::rat) < of_nat n" using n by simp
  show ?thesis
  proof
    assume "float64 (of_nat S / of_nat n) < 100"
    then have f: "float64_pos x < 100" using fx by (simp add: x_def)
    show "S < 100 * n"
    proof (rule ccontr)
      assume "\<not> S < 100 * n"
      then have "100 * n \<le> S" by simp
      then have "(of_nat (100 * n) :: rat) \<le> of_nat S" by (simp only: of_nat_le_iff)
      then have x100: "100 \<le> x" using npos by (simp add: x_def le_divide_eq)
      have "(of_nat S :: rat) \<le> of_nat (255 * n)" using bytes by (simp only: of_nat_le_iff)
      then have x255: "x \<le> 255" using npos by (simp add: x_def divide_le_eq)
      have e6: "6 \<le> e"
      proof (rule ccontr)
        assume "\<not> 6 \<le> e"
        then have "e + 1 \<le> 6" by simp
        then have "(2::rat) powi (e + 1) \<le> 2 powi 6" by (intro power_int_increasing) simp_all
        with hi x100 show False by simp
      qed
      have e7: "e \<le> 7"
      proof (rule ccontr)
        assume "\<not> e \<le> 7"
        then have "8 \<le> e" by simp
        then have "(2::rat) powi 8 \<le> 2 powi e" by (intro power_int_increasing) simp_all
        with lo x255 show False by simp
      qed
      from e6 e7 have "e = 6 \<or> e = 7" by auto
      then have "100 \<le> float64_pos x"
      proof
        assume e: "e = 6"
        have "of_int (100 * 2 ^ 46) * 2 powi (binade x - 52) = (100::rat)"
          using e by (simp add: e_def power_int_minus)
        with float64_pos_lower [of "100 * 2 ^ 46" x] x100 show ?thesis by simp
      next
        assume e: "e = 7"
        have "of_int (100 * 2 ^ 45) * 2 powi (binade x - 52) = (100::rat)"
          using e by (simp add: e_def power_int_minus)
        with float64_pos_lower [of "100 * 2 ^ 45" x] x100 show ?thesis by simp
      qed
      with f show False by simp
    qed
  next
    assume "S < 100 * n"
    then have "S + 1 \<le> 100 * n" by simp
    then have "(of_nat (S + 1) :: rat) \<le> of_nat (100 * n)" by (simp only: of_nat_le_iff)
    then have "(of_nat S :: rat) \<le> 100 * of_nat n - 1" by simp
    then have "x \<le> (100 * of_nat n - 1) / of_nat n"
      using npos by (simp add: x_def divide_right_mono)
    also have "\<dots> = 100 - 1 / of_nat n" using npos by (simp add: field_simps)
    finally have xle: "x \<le> 100 - 1 / of_nat n" .
    have "0 < 1 / (of_nat n :: rat)" using npos by simp
    with xle have xlt: "x < 100" by linarith
    have e6: "e \<le> 6"
    proof (rule ccontr)
      assume "\<not> e \<le> 6"
      then have "7 \<le> e" by simp
      then have "(2::rat) powi 7 \<le> 2 powi e" by (intro power_int_increasing) simp_all
      with lo xlt show False by simp
    qed
    have ulp: "(2::rat) powi (e - 53) \<le> 2 powi (- 47)"
      using e6 by (intro power_int_increasing) simp_all
    have "(of_nat n :: rat) < of_nat (2 ^ 47)" using small by (simp only: of_nat_less_iff)
    then have "(of_nat n :: rat) < 2 ^ 47" by simp
    then have "1 / (2 ^ 47 :: rat) < 1 / of_nat n"
      using npos by (intro divide_strict_left_mono) simp_all
    moreover have "(2::rat) powi (- 47) = 1 / 2 ^ 47" by (simp add: power_int_minus_divide)
    ultimately have gap: "(2::rat) powi (- 47) < 1 / of_nat n" by simp
    have "float64_pos x \<le> x + 2 powi (e - 53)"
      using float64_pos_upper [of x] by (simp add: e_def)
    with ulp gap xle have "float64_pos x < 100" by linarith
    then show "float64 (of_nat S / of_nat n) < 100" using fx by (simp add: x_def)
  qed
qed

lemma sum_bytes_le: "sum_list (map unat (xs :: 8 word list)) \<le> 255 * length xs"
proof (induction xs)
  case Nil
  then show ?case by simp
next
  case (Cons p ps)
  have "unat p < 2 ^ 8" using unsigned_less [of p, where ?'a = nat] by simp
  then have "unat p \<le> 255" by simp
  with Cons show ?case by simp
qed

lemma is_dark_exact:
  assumes "data gray \<noteq> []" and "length (data gray) < 2 ^ 47"
  shows "is_dark gray \<longleftrightarrow> sum_list (map unat (data gray)) < 100 * length (data gray)"
proof -
  have "0 < length (data gray)" using assms(1) by simp
  from float64_below_100_iff [OF this assms(2) sum_bytes_le]
  show ?thesis using assms(1) by (simp add: is_dark_def np_mean_def)
qed

section \<open>The upscale step\<close>

lemma upscale_wide_unchanged: "resize_width \<le> int (cols img) \<Longrightarrow> upscale lib img resize_width = Inr img"
  by (simp add: upscale_def Let_def)

lemma not_beyond_float: "\<bar>y\<bar> < 2 ^ 53 \<Longrightarrow> \<not> beyond_float y"
proof -
  assume a: "\<bar>y\<bar> < 2 ^ 53"
  have "(2::rat) ^ 53 \<le> 2 ^ 1024" by (intro power_increasing) simp_all
  with a show ?thesis unfolding beyond_float_def by linarith
qed

lemma upscale_dsize_97_50: "upscale_dsize 97 50 1600 = Inr (1599, 824)"
proof -
  have q: "float64 (1600 / 97) = 290180388361501 / 17592186044416" by code_simp
  have a: "float64 (28147497671065597 / 17592186044416) = 7036874417766399 / 4398046511104"
    by code_simp
  have b: "float64 (7254509709037525 / 8796093022208) = 7254509709037525 / 8796093022208"
    by code_simp
  have nq: "\<not> beyond_float (290180388361501 / 17592186044416)"
    by (rule not_beyond_float) simp
  have na: "\<not> beyond_float (7036874417766399 / 4398046511104)"
    by (rule not_beyond_float) simp
  have nb: "\<not> beyond_float (7254509709037525 / 8796093022208)"
    by (rule not_beyond_float) simp
  have ia: "py_int (7036874417766399 / 4398046511104) = 1599" by code_simp
  have ib: "py_int (7254509709037525 / 8796093022208) = 824" by code_simp
  show ?thesis
    by (simp add: upscale_dsize_def Let_def q a b nq na nb ia ib)
qed


text \<open>
  Claim C3. An image narrower than the target width should come out of the upscale step
  exactly \<open>resize_width\<close> wide. For an image 97 pixels wide and 50 high and the default
  target width 1600, the quotient \<open>1600 / 97\<close> rounds down in binary64, the product
  \<open>97 * scale\<close> is the float just below 1600, and \<^verbatim>\<open>int\<close> truncates it: the upscale step
  is the call of \<^verbatim>\<open>cv2.resize\<close> with the size 1599 by 824, so the output is 1599 pixels
  wide, not 1600.
\<close>

theorem upscale_width_97_is_1599:
  "upscale_dsize 97 50 1600 = Inr (1599, 824)
   \<and> upscale lib \<lparr>rows = 50, cols = 97, data = d\<rparr> 1600
       = cv2_call (resize lib \<lparr>rows = 50, cols = 97, data = d\<rparr> (1599, 824))"
  by (simp add: upscale_def upscale_dsize_97_50)

section \<open>Polarity normalization\<close>

lemma not_word_neq: "NOT p \<noteq> (p :: 8 word)"
  by (metis bit_not_iff bit_0 even_not_iff)

lemma bitwise_not_eq_iff: "bitwise_not g = g \<longleftrightarrow> data g = []"
proof
  assume "bitwise_not g = g"
  then have eq: "map (\<lambda>p. NOT p) (data g) = data g"
    by (metis bitwise_not_def ndarray.select_convs(3) ndarray.surjective ndarray.update_convs(3))
  show "data g = []"
  proof (cases "data g")
    case Nil then show ?thesis .
  next
    case (Cons p ps)
    with eq have "NOT p = p" by simp
    then show ?thesis using not_word_neq by blast
  qed
next
  assume "data g = []"
  then show "bitwise_not g = g" by (simp add: bitwise_not_def)
qed

lemma np_mean_uniform:
  assumes "data g \<noteq> []" "\<forall>p\<in>set (data g). p = v"
  shows "np_mean g = Some (float64 (of_nat (unat v)))"
proof -
  have d: "data g = replicate (length (data g)) v"
    using assms(2) by (simp add: replicate_length_same)
  have "sum_list (map unat (data g)) = length (data g) * unat v"
    by (subst d) (simp add: sum_list_replicate)
  moreover have "length (data g) \<noteq> 0" using assms(1) by simp
  ultimately show ?thesis using assms(1) by (simp add: np_mean_def)
qed

text \<open>
  Claim C4. On a non-empty grayscale buffer the polarity step inverts the intensities
  exactly when the mean intensity \<^verbatim>\<open>np.mean(gray)\<close> is strictly below 100, and leaves the
  buffer as it is exactly when the mean is 100 or more. An all-white buffer (every pixel
  255) is not inverted; an all-black buffer (every pixel 0) is inverted.
  For a buffer of fewer than \<open>2 ^ 47\<close> pixels the rounding of \<^verbatim>\<open>np.mean\<close> does not matter:
  the buffer is inverted exactly when the sum of its intensities is below 100 times
  their number.
\<close>

theorem polarity_inverts_iff_mean_below_100:
  assumes "data gray \<noteq> []"
  shows "(normalize_polarity gray = bitwise_not gray \<longleftrightarrow> (\<exists>m. np_mean gray = Some m \<and> m < 100))
       \<and> (normalize_polarity gray = gray \<longleftrightarrow> (\<exists>m. np_mean gray = Some m \<and> 100 \<le> m))
       \<and> ((\<forall>p\<in>set (data gray). p = 255) \<longrightarrow> normalize_polarity gray = gray)
       \<and> ((\<forall>p\<in>set (data gray). p = 0) \<longrightarrow> normalize_polarity gray = bitwise_not gray)
       \<and> (length (data gray) < 2 ^ 47 \<longrightarrow>
            (normalize_polarity gray = bitwise_not gray
               \<longleftrightarrow> sum_list (map unat (data gray)) < 100 * length (data gray)))"
proof -
  obtain m where m: "np_mean gray = Some m"
    using assms by (simp add: np_mean_def)
  have neq: "bitwise_not gray \<noteq> gray"
    using assms by (simp add: bitwise_not_eq_iff)
  have a: "normalize_polarity gray = bitwise_not gray \<longleftrightarrow> m < 100"
    using m neq by (auto simp: normalize_polarity_def is_dark_def)
  have b: "normalize_polarity gray = gray \<longleftrightarrow> 100 \<le> m"
    using m neq by (auto simp: normalize_polarity_def is_dark_def)
  have c: "normalize_polarity gray = gray" if "\<forall>p\<in>set (data gray). p = 255"
  proof -
    have "np_mean gray = Some 255"
      using np_mean_uniform [OF assms that] by (simp add: float64_255)
    then show ?thesis by (simp add: normalize_polarity_def is_dark_def)
  qed
  have d: "normalize_polarity gray = bitwise_not gray" if "\<forall>p\<in>set (data gray). p = 0"
  proof -
    have "np_mean gray = Some 0"
      using np_mean_uniform [OF assms that] by (simp add: float64_def)
    then show ?thesis by (simp add: normalize_polarity_def is_dark_def)
  qed
  have e: "normalize_polarity gray = bitwise_not gray
             \<longleftrightarrow> sum_list (map unat (data gray)) < 100 * length (data gray)"
    if "length (data gray) < 2 ^ 47"
    using is_dark_exact [OF assms that] neq by (auto simp: normalize_polarity_def)
  show ?thesis using a b c d e m by simp
qed

theorem polarity_inverts_iff_mean_below_100_witness:
  "data \<lparr>rows = 1, cols = 2, data = [0, 0 :: 8 word]\<rparr> \<noteq> []
   \<and> normalize_polarity \<lparr>rows = 1, cols = 2, data = [0, 0]\<rparr> = \<lparr>rows = 1, cols = 2, data = [255, 255]\<rparr>"
  using polarity_inverts_iff_mean_below_100 [of "\<lparr>rows = 1, cols = 2, data = [0, 0]\<rparr>"]
  by (simp add: bitwise_not_def)

section \<open>Errors of the preprocessor\<close>


lemma imwrite_stmt_returns:
  "imwrite lib path img = Inr written \<Longrightarrow>
     imwrite_stmt lib path img s = (Inr (), s\<lparr>trace := trace s @ [Imwrite path written]\<rparr>)"
  by (simp add: imwrite_stmt_def)

lemma imwrite_stmt_raises:
  "imwrite lib path img = Inl msg \<Longrightarrow> imwrite_stmt lib path img s = (Inl (Cv2Error msg), s)"
  by (simp add: imwrite_stmt_def)

lemma imwrite_stmt_cases:
  obtains (raises) msg where "imwrite lib path img = Inl msg"
      "imwrite_stmt lib path img s = (Inl (Cv2Error msg), s)"
    | (returns) written where "imwrite lib path img = Inr written"
      "imwrite_stmt lib path img s = (Inr (), s\<lparr>trace := trace s @ [Imwrite path written]\<rparr>)"
  by (cases "imwrite lib path img") (auto simp: imwrite_stmt_def)











section \<open>Joining the recognized fragments\<close>

lemma join_fragments_blank: "join_fragments results = join newline (map strip (filter (\<lambda>r. \<not> blank r) results))"
  by (simp add: join_fragments_def strip_Nil_iff)

lemma filter_all_blank: "list_all blank results \<Longrightarrow> filter (\<lambda>r. \<not> blank r) results = []"
  by (induction results) simp_all

text \<open>
  Claim C5, as amended. When the image is preprocessed without error, \<^verbatim>\<open>image_to_text\<close>
  returns the fragments of the engine that are not blank, each stripped of its leading
  and trailing whitespace, joined with newlines; blank fragments are discarded. When
  every fragment is blank, and in particular when the engine returns no fragment at
  all, the result is the empty string and not an error.
\<close>

theorem image_to_text_joins_stripped_fragments:
  assumes "fst (preprocess_image (cv ev) path 1600 (snd (init_reader langs use_gpu s))) = Inr prep"
      and "results = readtext ev (fst (init_reader langs use_gpu s)) prep"
  shows "fst (image_to_text ev path langs use_gpu s)
           = Inr (join newline (map strip (filter (\<lambda>r. \<not> blank r) results)))
       \<and> (list_all blank results \<longrightarrow> fst (image_to_text ev path langs use_gpu s) = Inr [])
       \<and> (results = [] \<longrightarrow> fst (image_to_text ev path langs use_gpu s) = Inr [])"
proof -
  obtain rd s1 where ir: "init_reader langs use_gpu s = (rd, s1)"
    by (cases "init_reader langs use_gpu s")
  obtain s2 where pp: "preprocess_image (cv ev) path 1600 s1 = (Inr prep, s2)"
    using assms(1) ir by (cases "preprocess_image (cv ev) path 1600 s1") simp
  have r: "fst (image_to_text ev path langs use_gpu s)
             = Inr (join newline (map strip (filter (\<lambda>r. \<not> blank r) results)))"
    using ir pp assms(2) by (simp add: image_to_text_def join_fragments_blank)
  then show ?thesis
    by (auto simp: filter_all_blank)
qed

theorem image_to_text_joins_stripped_fragments_witness:
  "fst (preprocess_image (cv (stand_in ['' What is S3? '', ''  '', ''A) Storage''] (Inr ''{}'') (\<lambda>s. None)))
         ''images/Prueba.png'' 1600 (snd (init_reader [''en''] True fresh)))
     = Inr \<lparr>rows = 1, cols = 1600, data = replicate 1600 255\<rparr>
   \<and> fst (image_to_text (stand_in ['' What is S3? '', ''  '', ''A) Storage''] (Inr ''{}'') (\<lambda>s. None))
            ''images/Prueba.png'' [''en''] True fresh)
     = Inr (''What is S3?'' @ newline @ ''A) Storage'')"
proof -
  let ?ev = "stand_in ['' What is S3? '', ''  '', ''A) Storage''] (Inr ''{}'') (\<lambda>s. None)"
  have h1: "fst (preprocess_image (cv ?ev) ''images/Prueba.png'' 1600 (snd (init_reader [''en''] True fresh)))
     = Inr \<lparr>rows = 1, cols = 1600, data = replicate 1600 255\<rparr>"
    by (simp add: model_defs stand_in_defs Let_def float64_255)
  have h2: "['' What is S3? '', ''  '', ''A) Storage'']
     = readtext ?ev (fst (init_reader [''en''] True fresh)) \<lparr>rows = 1, cols = 1600, data = replicate 1600 255\<rparr>"
    by (simp add: stand_in_def)
  have e: "join newline (map strip (filter (\<lambda>r. \<not> blank r) ['' What is S3? '', ''  '', ''A) Storage'']))
     = ''What is S3?'' @ newline @ ''A) Storage''"
    by (simp add: blank_def strip_def isspace_def)
  show ?thesis
    using image_to_text_joins_stripped_fragments [OF h1 h2] h1 e by simp
qed

text \<open>
  Claim C5 as stated says that the fragments that are not blank are joined as they are.
  For the single fragment \<^verbatim>\<open>" a "\<close> the code returns \<^verbatim>\<open>"a"\<close>, not \<^verbatim>\<open>" a "\<close>.
\<close>

theorem nonblank_fragments_are_stripped_counterexample:
  "fst (image_to_text (stand_in ['' a ''] (Inr ''{}'') (\<lambda>s. None)) ''images/Prueba.png'' [''en''] True fresh)
     \<noteq> Inr (nonblank_joined ['' a ''])"
  by (simp add: model_defs stand_in_defs Let_def float64_255 nonblank_joined_def blank_def
      strip_def isspace_def)

section \<open>The cached engine\<close>

lemma init_reader_cached: "reader_global s = Some r \<Longrightarrow> init_reader langs use_gpu s = (r, s)"
  by (simp add: init_reader_def)

lemma init_reader_first:
  "reader_global s = None \<Longrightarrow> fst (init_reader langs use_gpu s) = Reader langs use_gpu"
  by (simp add: init_reader_def)

text \<open>
  Claim C2. Each call of the text extractor should use an engine built with the
  configuration that call asks for. After a first call with English and the accelerator
  on, a second call asking for Spanish without the accelerator constructs no engine and
  runs the recognition on the English engine of the first call.
\<close>

theorem second_configuration_reuses_first_engine:
  "engines_created (trace (snd (image_to_text (stand_in [''hola''] (Inr ''{}'') (\<lambda>s. None)) ''images/Prueba.png'' [''es''] False
     (snd (image_to_text (stand_in [''hola''] (Inr ''{}'') (\<lambda>s. None)) ''images/Prueba.png'' [''en''] True fresh)))))
     = [Reader [''en''] True]
   \<and> engines_used (trace (snd (image_to_text (stand_in [''hola''] (Inr ''{}'') (\<lambda>s. None)) ''images/Prueba.png'' [''es''] False
     (snd (image_to_text (stand_in [''hola''] (Inr ''{}'') (\<lambda>s. None)) ''images/Prueba.png'' [''en''] True fresh)))))
     = [Reader [''en''] True, Reader [''en''] True]"
  by (simp add: model_defs stand_in_defs Let_def float64_255)

section \<open>The run on a page without text\<close>

text \<open>
  Claim C1. When the text extractor returns a blank string the run should end in the
  done state as a no-op, without the structurer or the publisher. On the input of the
  module, with an engine that finds no text on the page, \<^verbatim>\<open>image_to_text\<close> returns the
  empty string, \<^verbatim>\<open>get_question_text\<close> returns the state unchanged, and the graph goes on
  to \<^verbatim>\<open>convert_text_to_json\<close>, which raises \<^verbatim>\<open>KeyError\<close> on \<^verbatim>\<open>state["ocr_text"]\<close>: the run
  ends with an exception raised in the structuring node.
  When the input state already has an \<^verbatim>\<open>"ocr_text"\<close> entry (here the empty string), the
  language model is invoked on it and the publisher receives the record made of
  its reply.
\<close>

theorem blank_text_still_runs_structurer:
  "fst (image_to_text (stand_in [] (Inr ''{}'') (\<lambda>s. None)) ''images/Prueba.png'' [''en''] True fresh) = Inr []
   \<and> fst (graph_invoke (stand_in [] (Inr ''{}'') (\<lambda>s. None)) input_state fresh)
       = Inl (Convert_text_to_json, KeyError ''ocr_text'')
   \<and> structurer_calls (trace (snd (graph_invoke
        (stand_in [] (Inr s3_reply) (parse_table [(s3_reply, s3_record)]))
        (input_state\<lparr>ocr_text := Some []\<rparr>) fresh)))
       = [''Now analyze the following question: '']
   \<and> publisher_calls (trace (snd (graph_invoke
        (stand_in [] (Inr s3_reply) (parse_table [(s3_reply, s3_record)]))
        (input_state\<lparr>ocr_text := Some []\<rparr>) fresh)))
       = [s3_record]"
proof -
  have b: "\<exists>payload. build_notion_payload s3_record = Inr payload"
    by (simp add: build_notion_payload_def s3_record_def toggle_block_def)
  then obtain payload where p: "build_notion_payload s3_record = Inr payload" by blast
  show ?thesis
    by (simp add: graph_invoke_unfold model_defs stand_in_defs Let_def float64_255 strip_empty
        strip_s3_reply p)
qed

section \<open>The Notion payload\<close>

lemma has_field_strE:
  assumes "has_field j k is_str"
  obtains s where "subscript j k = Inr (JStr s)"
  using assms by (auto simp: has_field_def is_str_def split: sum.splits json.splits)

lemma has_field_boolE:
  assumes "has_field j k is_bool"
  obtains b where "subscript j k = Inr (JBool b)"
  using assms by (auto simp: has_field_def is_bool_def split: sum.splits json.splits)

lemma answer_entryE:
  assumes "answer_entry a"
  obtains opt c expl where "subscript a ''option'' = Inr (JStr opt)"
    and "subscript a ''isCorrect'' = Inr (JBool c)" and "subscript a ''explanation'' = Inr (JStr expl)"
proof -
  from assms have 1: "has_field a ''option'' is_str" and 2: "has_field a ''isCorrect'' is_bool"
    and 3: "has_field a ''explanation'' is_str"
    by (simp_all add: answer_entry_def)
  from 1 obtain opt where o: "subscript a ''option'' = Inr (JStr opt)" by (rule has_field_strE)
  from 2 obtain c where c: "subscript a ''isCorrect'' = Inr (JBool c)" by (rule has_field_boolE)
  from 3 obtain expl where e: "subscript a ''explanation'' = Inr (JStr expl)" by (rule has_field_strE)
  from o c e show ?thesis by (rule that)
qed

lemma toggle_block_entry:
  assumes "subscript a ''option'' = Inr opt" "subscript a ''isCorrect'' = Inr (JBool c)"
    "subscript a ''explanation'' = Inr expl"
  shows "toggle_block a = Inr (toggle_dict (if c then ''Correcto'' else ''Incorrecto'')
                                 (if c then ''green'' else ''red'') opt expl)"
  using assms by (simp add: toggle_block_def)

lemma build_toggles_length:
  "list_all answer_entry anss \<Longrightarrow>
     \<exists>ts. build_toggles anss acc = Inr (acc @ ts) \<and> length ts = length anss
        \<and> (\<forall>i<length anss. toggle_block (anss ! i) = Inr (ts ! i))"
proof (induction anss arbitrary: acc)
  case Nil
  then show ?case by simp
next
  case (Cons a anss)
  from Cons.prems have a: "answer_entry a" and rest: "list_all answer_entry anss" by simp_all
  from a obtain opt c expl where "subscript a ''option'' = Inr (JStr opt)"
    and "subscript a ''isCorrect'' = Inr (JBool c)" and "subscript a ''explanation'' = Inr (JStr expl)"
    by (rule answer_entryE)
  then obtain t where t: "toggle_block a = Inr t"
    by (simp add: toggle_block_entry)
  from Cons.IH [OF rest, of "acc @ [t]"] obtain ts where
    ts: "build_toggles anss (acc @ [t]) = Inr ((acc @ [t]) @ ts)" "length ts = length anss"
      "\<forall>i<length anss. toggle_block (anss ! i) = Inr (ts ! i)"
    by blast
  have "build_toggles (a # anss) acc = Inr (acc @ (t # ts))"
    using t ts(1) by simp
  moreover have "length (t # ts) = length (a # anss)" using ts(2) by simp
  moreover have "\<forall>i<length (a # anss). toggle_block ((a # anss) ! i) = Inr ((t # ts) ! i)"
    using t ts(3) by (auto simp: nth_Cons split: nat.splits)
  ultimately show ?case by blast
qed

lemma toggle_dict_parts:
  "block_type (toggle_dict l c opt expl) = Some (JStr ''toggle'')"
  "toggle_text (toggle_dict l c opt expl) = Some opt"
  "toggle_children (toggle_dict l c opt expl) = Some (JArr [p]) \<longleftrightarrow>
     p = JObj [(''object'', JStr ''block''), (''type'', JStr ''paragraph''),
               (''paragraph'', JObj [(''rich_text'', JArr
                  [JObj [(''type'', JStr ''text''), (''text'', JObj [(''content'', JStr (l @ '': ''))]),
                         (''annotations'', JObj [(''code'', JBool True), (''color'', JStr c)])],
                   JObj [(''type'', JStr ''text''), (''text'', JObj [(''content'', expl)])]])])]"
  by (auto simp: block_type_def toggle_text_def toggle_children_def toggle_dict_def lookup_path_def)

lemma paragraph_parts_eval:
  assumes "p = JObj [(''object'', JStr ''block''), (''type'', JStr ''paragraph''),
               (''paragraph'', JObj [(''rich_text'', JArr
                  [JObj [(''type'', JStr ''text''), (''text'', JObj [(''content'', JStr (l @ '': ''))]),
                         (''annotations'', JObj [(''code'', JBool True), (''color'', JStr c)])],
                   JObj [(''type'', JStr ''text''), (''text'', JObj [(''content'', expl)])]])])]"
  shows "block_type p = Some (JStr ''paragraph'')"
    and "paragraph_label p = Some (JStr (l @ '': ''))"
    and "paragraph_color p = Some (JStr c)"
    and "paragraph_explanation p = Some expl"
  using assms
  by (simp_all add: block_type_def paragraph_label_def paragraph_color_def paragraph_explanation_def
      lookup_path_def)


lemma build_notion_payload_record:
  assumes "structured_record q" and "subscript q ''answer'' = Inr (JArr anss)"
  shows "\<exists>payload toggles. build_notion_payload q = Inr payload
           \<and> payload_toggles payload = Some (JArr toggles)
           \<and> length toggles = length anss
           \<and> (\<forall>i<length anss. toggle_block (anss ! i) = Inr (toggles ! i))"
proof -
  from assms(1) have "has_field q ''question'' is_str" and al: "has_field q ''answer'' is_answer_list"
    by (simp_all add: structured_record_def)
  then obtain qtext where qt: "subscript q ''question'' = Inr (JStr qtext)"
    by (auto elim: has_field_strE)
  from al assms(2) have "list_all answer_entry anss"
    by (simp add: has_field_def is_answer_list_def)
  from build_toggles_length [OF this, of "[]"] obtain toggles where
    ts: "build_toggles anss [] = Inr toggles" "length toggles = length anss"
      "\<forall>i<length anss. toggle_block (anss ! i) = Inr (toggles ! i)"
    by auto
  show ?thesis
    using assms(2) qt ts
    by (simp add: build_notion_payload_def payload_toggles_def lookup_path_def)
qed

text \<open>
  Claim C10. For every structured question record, \<^verbatim>\<open>build_notion_payload\<close> returns a
  payload whose numbered list item has exactly one toggle block per entry of the
  \<^verbatim>\<open>"answer"\<close> list, in the order of the list. The visible text of the toggle for an entry
  is the entry's option; the toggle has one child, a paragraph, whose first part is the
  label \<^verbatim>\<open>"Correcto: "\<close> in green when \<^verbatim>\<open>isCorrect\<close> is true and \<^verbatim>\<open>"Incorrecto: "\<close> in red
  when it is false, and whose second part is the entry's explanation.
\<close>

theorem build_notion_payload_one_toggle_per_answer:
  assumes "structured_record q" and "subscript q ''answer'' = Inr (JArr anss)"
  shows "\<exists>payload toggles. build_notion_payload q = Inr payload
           \<and> payload_toggles payload = Some (JArr toggles)
           \<and> length toggles = length anss
           \<and> (\<forall>i<length anss. \<exists>opt c expl para.
                  subscript (anss ! i) ''option'' = Inr (JStr opt)
                \<and> subscript (anss ! i) ''isCorrect'' = Inr (JBool c)
                \<and> subscript (anss ! i) ''explanation'' = Inr (JStr expl)
                \<and> block_type (toggles ! i) = Some (JStr ''toggle'')
                \<and> toggle_text (toggles ! i) = Some (JStr opt)
                \<and> toggle_children (toggles ! i) = Some (JArr [para])
                \<and> block_type para = Some (JStr ''paragraph'')
                \<and> paragraph_label para = Some (JStr (if c then ''Correcto: '' else ''Incorrecto: ''))
                \<and> paragraph_color para = Some (JStr (if c then ''green'' else ''red''))
                \<and> paragraph_explanation para = Some (JStr expl))"
proof -
  from build_notion_payload_record [OF assms] obtain payload toggles where
    p: "build_notion_payload q = Inr payload" "payload_toggles payload = Some (JArr toggles)"
      "length toggles = length anss"
      "\<forall>i<length anss. toggle_block (anss ! i) = Inr (toggles ! i)"
    by blast
  from assms have all: "list_all answer_entry anss"
    by (simp add: structured_record_def has_field_def is_answer_list_def)
  have "\<exists>opt c expl para.
          subscript (anss ! i) ''option'' = Inr (JStr opt)
        \<and> subscript (anss ! i) ''isCorrect'' = Inr (JBool c)
        \<and> subscript (anss ! i) ''explanation'' = Inr (JStr expl)
        \<and> block_type (toggles ! i) = Some (JStr ''toggle'')
        \<and> toggle_text (toggles ! i) = Some (JStr opt)
        \<and> toggle_children (toggles ! i) = Some (JArr [para])
        \<and> block_type para = Some (JStr ''paragraph'')
        \<and> paragraph_label para = Some (JStr (if c then ''Correcto: '' else ''Incorrecto: ''))
        \<and> paragraph_color para = Some (JStr (if c then ''green'' else ''red''))
        \<and> paragraph_explanation para = Some (JStr expl)" if i: "i < length anss" for i
  proof -
    from all i have "answer_entry (anss ! i)" by (simp add: list_all_length)
    then obtain opt c expl where f: "subscript (anss ! i) ''option'' = Inr (JStr opt)"
      "subscript (anss ! i) ''isCorrect'' = Inr (JBool c)"
      "subscript (anss ! i) ''explanation'' = Inr (JStr expl)"
      by (rule answer_entryE)
    let ?l = "if c then ''Correcto'' else ''Incorrecto''"
    let ?col = "if c then ''green'' else ''red''"
    have t: "toggles ! i = toggle_dict ?l ?col (JStr opt) (JStr expl)"
      using p(4) i toggle_block_entry [OF f] by simp
    define para where "para = JObj [(''object'', JStr ''block''), (''type'', JStr ''paragraph''),
               (''paragraph'', JObj [(''rich_text'', JArr
                  [JObj [(''type'', JStr ''text''), (''text'', JObj [(''content'', JStr (?l @ '': ''))]),
                         (''annotations'', JObj [(''code'', JBool True), (''color'', JStr ?col)])],
                   JObj [(''type'', JStr ''text''), (''text'', JObj [(''content'', JStr expl)])]])])]"
    have c1: "toggle_children (toggles ! i) = Some (JArr [para])"
      unfolding t using toggle_dict_parts(3) [of ?l ?col "JStr opt" "JStr expl" para] para_def
      by blast
    have lab: "JStr (?l @ '': '') = JStr (if c then ''Correcto: '' else ''Incorrecto: '')" by simp
    show ?thesis
      using f c1 toggle_dict_parts(1,2) [of ?l ?col "JStr opt" "JStr expl"]
        paragraph_parts_eval [OF para_def] lab
      unfolding t by metis
  qed
  with p(1-3) show ?thesis by blast
qed


theorem build_notion_payload_one_toggle_per_answer_witness:
  "structured_record s3_record
   \<and> (\<exists>payload toggles. build_notion_payload s3_record = Inr payload
         \<and> payload_toggles payload = Some (JArr toggles) \<and> length toggles = 2
         \<and> toggle_text (toggles ! 0) = Some (JStr ''Storage'')
         \<and> toggle_text (toggles ! 1) = Some (JStr ''Compute''))"
proof -
  let ?anss = "[JObj [(''option'', JStr ''Storage''), (''isCorrect'', JBool True),
                      (''explanation'', JStr ''Si'')],
                JObj [(''option'', JStr ''Compute''), (''isCorrect'', JBool False),
                      (''explanation'', JStr ''No'')]]"
  have h1: "structured_record s3_record"
    by (simp add: structured_record_def s3_record_def has_field_def is_str_def is_bool_def
        is_answer_list_def answer_entry_def)
  have h2: "subscript s3_record ''answer'' = Inr (JArr ?anss)"
    by (simp add: s3_record_def)
  from build_notion_payload_one_toggle_per_answer [OF h1 h2] obtain payload toggles where
    p: "build_notion_payload s3_record = Inr payload" "payload_toggles payload = Some (JArr toggles)"
      "length toggles = length ?anss"
    and each: "\<forall>i<length ?anss. \<exists>opt c expl para.
                  subscript (?anss ! i) ''option'' = Inr (JStr opt)
                \<and> subscript (?anss ! i) ''isCorrect'' = Inr (JBool c)
                \<and> subscript (?anss ! i) ''explanation'' = Inr (JStr expl)
                \<and> block_type (toggles ! i) = Some (JStr ''toggle'')
                \<and> toggle_text (toggles ! i) = Some (JStr opt)
                \<and> toggle_children (toggles ! i) = Some (JArr [para])
                \<and> block_type para = Some (JStr ''paragraph'')
                \<and> paragraph_label para = Some (JStr (if c then ''Correcto: '' else ''Incorrecto: ''))
                \<and> paragraph_color para = Some (JStr (if c then ''green'' else ''red''))
                \<and> paragraph_explanation para = Some (JStr expl)"
    by blast
  from each have "toggle_text (toggles ! 0) = Some (JStr ''Storage'')" by fastforce
  moreover from each have "toggle_text (toggles ! 1) = Some (JStr ''Compute'')" by fastforce
  ultimately show ?thesis using h1 p by auto
qed

section \<open>The structuring and publishing stages\<close>

lemma convert_text_to_json_Inr:
  assumes "convert_text_to_json ev state s = (Inr state2, s2)"
  shows "\<exists>qtext content q. ocr_text state = Some qtext
           \<and> model_invoke ev (prompt_format ev qtext) = Inr content
           \<and> json_loads ev (strip content) = Some q
           \<and> state2 = state\<lparr>question := Some q\<rparr>"
  using assms
  by (auto simp: convert_text_to_json_def answer_question_with_llm_def Let_def
      split: option.splits sum.splits prod.splits)

lemma convert_text_to_json_fails:
  assumes "ocr_text state = Some qtext"
    and "model_invoke ev (prompt_format ev qtext) = r"
    and "case r of Inl e \<Rightarrow> True | Inr content \<Rightarrow> json_loads ev (strip content) = None"
  shows "convert_text_to_json ev state s
           = (Inl (case r of Inl e \<Rightarrow> e | Inr content \<Rightarrow> JSONDecodeError),
              s\<lparr>trace := trace s @ [Model_invoke (prompt_format ev qtext)]\<rparr>)"
  using assms
  by (cases r) (simp_all add: convert_text_to_json_def answer_question_with_llm_def Let_def)

text \<open>
  Claim C6, as amended. In a run that reached the structuring node with an extracted
  text, when the language model raises, or answers with a reply that \<^verbatim>\<open>json.loads\<close>
  rejects, the run ends with that exception (\<^verbatim>\<open>JSONDecodeError\<close> for a rejected reply)
  raised in \<^verbatim>\<open>convert_text_to_json\<close>, and \<^verbatim>\<open>upload_question\<close> is not entered.
\<close>

theorem structuring_failure_stops_before_publisher:
  assumes "get_question_text ev state s = (Inr state1, s1)"
    and "ocr_text state1 = Some qtext"
    and "model_invoke ev (prompt_format ev qtext) = r"
    and "case r of Inl e \<Rightarrow> True | Inr content \<Rightarrow> json_loads ev (strip content) = None"
  shows "graph_invoke ev state s
           = (Inl (Convert_text_to_json, case r of Inl e \<Rightarrow> e | Inr content \<Rightarrow> JSONDecodeError),
              s1\<lparr>trace := trace s1 @ [Model_invoke (prompt_format ev qtext)]\<rparr>)
       \<and> publisher_calls (trace (snd (graph_invoke ev state s))) = publisher_calls (trace s)"
proof -
  have g: "graph_invoke ev state s
           = (Inl (Convert_text_to_json, case r of Inl e \<Rightarrow> e | Inr content \<Rightarrow> JSONDecodeError),
              s1\<lparr>trace := trace s1 @ [Model_invoke (prompt_format ev qtext)]\<rparr>)"
    using assms(1) convert_text_to_json_fails [OF assms(2-4), of s1]
    by (simp add: graph_invoke_unfold)
  have "publisher_calls (trace s1) = publisher_calls (trace s)"
    using get_question_text_publisher [of ev state s] assms(1) by simp
  then show ?thesis
    using g by (simp add: publisher_calls_append)
qed

text \<open>
  Claim C8. In a run whose structuring node returned, the record in the state is the one
  \<^verbatim>\<open>json.loads\<close> made of the language model's reply; \<^verbatim>\<open>upload_question\<close> is entered exactly
  once in the run, with exactly that record; and the run ends with the state unchanged
  when \<^verbatim>\<open>upload_question\<close> returns, whatever it returns, and with its exception when it
  raises.
\<close>

theorem publisher_invoked_once_with_record:
  assumes "get_question_text ev state s = (Inr state1, s1)"
    and "convert_text_to_json ev state1 s1 = (Inr state2, s2)"
  shows "\<exists>qtext content q.
           ocr_text state1 = Some qtext
         \<and> model_invoke ev (prompt_format ev qtext) = Inr content
         \<and> json_loads ev (strip content) = Some q
         \<and> question state2 = Some q
         \<and> publisher_calls (trace (snd (graph_invoke ev state s))) = publisher_calls (trace s) @ [q]
         \<and> graph_invoke ev state s
             = (case upload_question ev q s2 of
                  (Inl e, s3) \<Rightarrow> (Inl (Upload_to_notion, e), s3)
                | (Inr uploaded, s3) \<Rightarrow> (Inr state2, s3))"
proof -
  from convert_text_to_json_Inr [OF assms(2)] obtain qtext content q where
    c: "ocr_text state1 = Some qtext" "model_invoke ev (prompt_format ev qtext) = Inr content"
      "json_loads ev (strip content) = Some q" "state2 = state1\<lparr>question := Some q\<rparr>"
    by blast
  have q2: "question state2 = Some q" using c(4) by simp
  obtain r3 s3 where u: "upload_question ev q s2 = (r3, s3)"
    by (cases "upload_question ev q s2")
  have g: "graph_invoke ev state s
             = (case upload_question ev q s2 of
                  (Inl e, s3) \<Rightarrow> (Inl (Upload_to_notion, e), s3)
                | (Inr uploaded, s3) \<Rightarrow> (Inr state2, s3))"
    using assms q2 by (simp add: graph_invoke_unfold upload_to_notion_def split: prod.splits sum.splits)
  have s3: "snd (graph_invoke ev state s) = s3"
    using g u by (cases r3) simp_all
  have "publisher_calls (trace s3) = publisher_calls (trace s2) @ [q]"
    using upload_question_publisher [of ev q s2] u by simp
  moreover have "publisher_calls (trace s2) = publisher_calls (trace s1)"
    using convert_text_to_json_publisher [of ev state1 s1] assms(2) by simp
  moreover have "publisher_calls (trace s1) = publisher_calls (trace s)"
    using get_question_text_publisher [of ev state s] assms(1) by simp
  ultimately have "publisher_calls (trace (snd (graph_invoke ev state s))) = publisher_calls (trace s) @ [q]"
    using s3 by simp
  with c(1-3) q2 g show ?thesis by blast
qed


lemma get_question_text_stand_in:
  "fst (get_question_text (stand_in [''What is S3? A) Storage B) Compute''] reply parse) input_state fresh)
     = Inr (input_state\<lparr>ocr_text := Some ''What is S3? A) Storage B) Compute''\<rparr>)"
  by (simp add: model_defs stand_in_defs Let_def float64_255 strip_def isspace_def)

theorem structuring_failure_stops_before_publisher_witness:
  "fst (graph_invoke (stand_in [''What is S3? A) Storage B) Compute''] (Inr ''Sure, here it is'')
          (parse_table [])) input_state fresh)
     = Inl (Convert_text_to_json, JSONDecodeError)
   \<and> publisher_calls (trace (snd (graph_invoke
        (stand_in [''What is S3? A) Storage B) Compute''] (Inr ''Sure, here it is'') (parse_table []))
        input_state fresh))) = []"
proof -
  let ?ev = "stand_in [''What is S3? A) Storage B) Compute''] (Inr ''Sure, here it is'') (parse_table [])"
  let ?st1 = "input_state\<lparr>ocr_text := Some ''What is S3? A) Storage B) Compute''\<rparr>"
  have h1: "get_question_text ?ev input_state fresh = (Inr ?st1, snd (get_question_text ?ev input_state fresh))"
    using get_question_text_stand_in [of "Inr ''Sure, here it is''" "parse_table []"]
    by (metis prod.collapse)
  have h2: "ocr_text ?st1 = Some ''What is S3? A) Storage B) Compute''" by simp
  have h3: "model_invoke ?ev (prompt_format ?ev ''What is S3? A) Storage B) Compute'') = Inr ''Sure, here it is''"
    by (simp add: stand_in_def)
  have h4: "case (Inr ''Sure, here it is'' :: error + string) of Inl e \<Rightarrow> True
            | Inr content \<Rightarrow> json_loads ?ev (strip content) = None"
    by (simp add: stand_in_def)
  note t = structuring_failure_stops_before_publisher [OF h1 h2 h3 h4]
  have a: "fst (graph_invoke ?ev input_state fresh) = Inl (Convert_text_to_json, JSONDecodeError)"
    using conjunct1 [OF t] by simp
  have b: "publisher_calls (trace (snd (graph_invoke ?ev input_state fresh))) = publisher_calls (trace fresh)"
    using conjunct2 [OF t] .
  have c: "publisher_calls (trace fresh) = []" by (simp add: fresh_def)
  show ?thesis using a b c by simp
qed

text \<open>
  Claim C6 as stated covers every reply that cannot be parsed as the structured record.
  The reply \<^verbatim>\<open>{}\<close> is valid JSON and no structured record: the structuring node accepts
  it, \<^verbatim>\<open>upload_question\<close> is entered with the empty dict, and the run ends with the
  \<^verbatim>\<open>KeyError\<close> that \<^verbatim>\<open>build_notion_payload\<close> raises in the publishing node.
\<close>

theorem schema_violating_reply_reaches_publisher_counterexample:
  "json_loads (stand_in [''What is S3? A) Storage B) Compute''] (Inr ''{}'') (parse_table [(''{}'', JObj [])])) ''{}''
     = Some (JObj [])
   \<and> \<not> structured_record (JObj [])
   \<and> fst (graph_invoke (stand_in [''What is S3? A) Storage B) Compute''] (Inr ''{}'')
            (parse_table [(''{}'', JObj [])])) input_state fresh)
       = Inl (Upload_to_notion, KeyError ''answer'')
   \<and> publisher_calls (trace (snd (graph_invoke
        (stand_in [''What is S3? A) Storage B) Compute''] (Inr ''{}'') (parse_table [(''{}'', JObj [])]))
        input_state fresh))) = [JObj []]"
  by (simp add: graph_invoke_unfold model_defs stand_in_defs Let_def float64_255 strip_def isspace_def
      structured_record_def has_field_def build_notion_payload_def)

theorem publisher_invoked_once_with_record_witness:
  "fst (graph_invoke (stand_in [''What is S3? A) Storage B) Compute''] (Inr s3_reply)
          (parse_table [(s3_reply, s3_record)])) input_state fresh)
     = Inr \<lparr>file_path = Some ''images/Prueba.png'',
            ocr_text = Some ''What is S3? A) Storage B) Compute'',
            question = Some s3_record\<rparr>
   \<and> publisher_calls (trace (snd (graph_invoke
        (stand_in [''What is S3? A) Storage B) Compute''] (Inr s3_reply) (parse_table [(s3_reply, s3_record)]))
        input_state fresh))) = [s3_record]"
proof -
  let ?ev = "stand_in [''What is S3? A) Storage B) Compute''] (Inr s3_reply) (parse_table [(s3_reply, s3_record)])"
  let ?st1 = "input_state\<lparr>ocr_text := Some ''What is S3? A) Storage B) Compute''\<rparr>"
  let ?s1 = "snd (get_question_text ?ev input_state fresh)"
  let ?st2 = "?st1\<lparr>question := Some s3_record\<rparr>"
  have h1: "get_question_text ?ev input_state fresh = (Inr ?st1, ?s1)"
    using get_question_text_stand_in [of "Inr s3_reply" "parse_table [(s3_reply, s3_record)]"]
    by (metis prod.collapse)
  have "fst (convert_text_to_json ?ev ?st1 ?s1) = Inr ?st2"
    by (simp add: convert_text_to_json_def answer_question_with_llm_def Let_def stand_in_def
        strip_s3_reply)
  then have h2: "convert_text_to_json ?ev ?st1 ?s1 = (Inr ?st2, snd (convert_text_to_json ?ev ?st1 ?s1))"
    by (metis prod.collapse)
  from publisher_invoked_once_with_record [OF h1 h2] obtain q where
    q: "question ?st2 = Some q"
      "publisher_calls (trace (snd (graph_invoke ?ev input_state fresh))) = publisher_calls (trace fresh) @ [q]"
      "graph_invoke ?ev input_state fresh
         = (case upload_question ?ev q (snd (convert_text_to_json ?ev ?st1 ?s1)) of
              (Inl e, s3) \<Rightarrow> (Inl (Upload_to_notion, e), s3)
            | (Inr uploaded, s3) \<Rightarrow> (Inr ?st2, s3))"
    by blast
  from q(1) have qq: "q = s3_record" by simp
  have b: "\<exists>payload. build_notion_payload s3_record = Inr payload"
    by (simp add: build_notion_payload_def s3_record_def toggle_block_def)
  have "fst (upload_question ?ev s3_record (snd (convert_text_to_json ?ev ?st1 ?s1))) = Inr True"
    using b by (auto simp: upload_question_def Let_def stand_in_def)
  then have "fst (graph_invoke ?ev input_state fresh) = Inr ?st2"
    using q(3) qq by (simp split: prod.splits sum.splits)
  then show ?thesis
    using q(2) qq by (simp add: fresh_def input_state_def)
qed

end
